theory Spec2Isabelle
  imports Complex_Main "HOL-Library.List_Lexorder"
begin

section \<open>Tensors\<close>

text \<open>
  The functions of \<^verbatim>\<open>tf_retinanet\<close> verified here compute on TensorFlow tensors. A tensor
  is modelled by its shape and its elements in row-major order. The type of the elements
  is a parameter of the tensor operations, of the decoder and of the clipper, as the
  floating-point type \<^verbatim>\<open>floatx()\<close> is one of the code: it is instantiated with the real
  numbers, where arithmetic is exact, and with the floating-point values \<open>fl\<close> defined
  below, which have infinities, NaN and overflow. Every TensorFlow or Python operation
  that can fail returns a value of \<open>error + 'a\<close>, with \<open>Inl\<close> for the failure.
\<close>

datatype error = IndexError | ShapeError | InvalidArgumentError

record 'a tensor =
  shape :: "nat list"
  elems :: "'a list"

definition wf :: "'a tensor \<Rightarrow> bool" where
  "wf t = (length (elems t) = prod_list (shape t))"

definition ebind :: "error + 'a \<Rightarrow> ('a \<Rightarrow> error + 'b) \<Rightarrow> error + 'b" where
  "ebind m f = (case m of Inl e \<Rightarrow> Inl e | Inr x \<Rightarrow> f x)"

text \<open>Python's \<^verbatim>\<open>xs[i]\<close> for a constant index \<open>i \<ge> 0\<close>.\<close>

definition py_index :: "'a list \<Rightarrow> nat \<Rightarrow> error + 'a" where
  "py_index xs i = (if i < length xs then Inr (xs ! i) else Inl IndexError)"

text \<open>Row-major addressing: the multi-index of a flat position in a shape, and back.\<close>

fun unravel :: "nat list \<Rightarrow> nat \<Rightarrow> nat list" where
  "unravel [] p = []"
| "unravel (d # ds) p = (p div prod_list ds) # unravel ds (p mod prod_list ds)"

fun ravel :: "nat list \<Rightarrow> nat list \<Rightarrow> nat" where
  "ravel (d # ds) (i # ix) = i * prod_list ds + ravel ds ix"
| "ravel _ _ = 0"

text \<open>A tensor combined with a Python scalar: the operation is applied to each element.\<close>

definition tmap :: "('a \<Rightarrow> 'a) \<Rightarrow> 'a tensor \<Rightarrow> 'a tensor" where
  "tmap f t = \<lparr>shape = shape t, elems = map f (elems t)\<rparr>"

text \<open>
  Broadcasting of two tensors, as NumPy and TensorFlow do it: the shorter shape is
  padded with leading ones; two dimensions are compatible when they are equal or one
  of them is 1, and a dimension of size 1 is read at index 0.
\<close>

definition pad_shape :: "nat \<Rightarrow> nat list \<Rightarrow> nat list" where
  "pad_shape r s = replicate (r - length s) 1 @ s"

definition broadcast_dim :: "nat \<Rightarrow> nat \<Rightarrow> nat option" where
  "broadcast_dim m n =
     (if m = n then Some m else if m = 1 then Some n else if n = 1 then Some m else None)"

fun broadcast_dims :: "nat list \<Rightarrow> nat list \<Rightarrow> nat list option" where
  "broadcast_dims [] [] = Some []"
| "broadcast_dims (m # ms) (n # ns) =
     (case broadcast_dim m n of
        None \<Rightarrow> None
      | Some d \<Rightarrow> (case broadcast_dims ms ns of None \<Rightarrow> None | Some ds \<Rightarrow> Some (d # ds)))"
| "broadcast_dims _ _ = None"

definition bcast_index :: "nat list \<Rightarrow> nat list \<Rightarrow> nat" where
  "bcast_index s ix = ravel s (map2 (\<lambda>d i. if d = 1 then 0 else i) s ix)"

definition binop :: "('a \<Rightarrow> 'a \<Rightarrow> 'a) \<Rightarrow> 'a tensor \<Rightarrow> 'a tensor \<Rightarrow> error + 'a tensor" where
  "binop f a b =
     (let r = max (length (shape a)) (length (shape b));
          sa = pad_shape r (shape a);
          sb = pad_shape r (shape b)
      in case broadcast_dims sa sb of
           None \<Rightarrow> Inl ShapeError
         | Some s \<Rightarrow>
             Inr \<lparr>shape = s,
                  elems = map (\<lambda>p. f (elems a ! bcast_index sa (unravel s p))
                                      (elems b ! bcast_index sb (unravel s p)))
                              [0..<prod_list s]\<rparr>)"

text \<open>The slice \<^verbatim>\<open>t[:, :, i]\<close> for a constant \<open>i \<ge> 0\<close>: the third axis is removed.\<close>

definition index_axis2 :: "'a tensor \<Rightarrow> nat \<Rightarrow> error + 'a tensor" where
  "index_axis2 t i =
     (case shape t of
        d0 # d1 # d2 # rest \<Rightarrow>
          if i < d2
          then Inr \<lparr>shape = d0 # d1 # rest,
                    elems = map (\<lambda>p. elems t !
                                   ravel (shape t)
                                     (take 2 (unravel (d0 # d1 # rest) p) @
                                      i # drop 2 (unravel (d0 # d1 # rest) p)))
                                [0..<prod_list (d0 # d1 # rest)]\<rparr>
          else Inl IndexError
      | _ \<Rightarrow> Inl IndexError)"

text \<open>
  \<^verbatim>\<open>tf.keras.backend.stack(ts, axis)\<close>: the tensors must have one shape; the result has a
  new axis of size \<open>length ts\<close> at position \<open>axis\<close>.
\<close>

definition stack :: "'a tensor list \<Rightarrow> nat \<Rightarrow> error + 'a tensor" where
  "stack ts axis =
     (case ts of
        [] \<Rightarrow> Inl ShapeError
      | t # _ \<Rightarrow>
          if list_all (\<lambda>u. shape u = shape t) ts \<and> axis \<le> length (shape t)
          then let out = take axis (shape t) @ length ts # drop axis (shape t)
               in Inr \<lparr>shape = out,
                        elems = map (\<lambda>p. elems (ts ! (unravel out p ! axis)) !
                                       ravel (shape t)
                                         (take axis (unravel out p) @
                                          drop (Suc axis) (unravel out p)))
                                    [0..<prod_list out]\<rparr>
          else Inl ShapeError)"

section \<open>Decoding box deltas: \<^verbatim>\<open>backend/anchors.py\<close>\<close>

text \<open>
  One of the four lines
  \<^verbatim>\<open>x_1 = boxes[:, :, 0] + (deltas[:, :, 0] * std[0] + mean[0]) * width\<close>,
  for the coordinate \<open>i\<close> and the extent (width or height) \<open>extent\<close>, with Python's order
  of evaluation.
\<close>

definition decode_coord ::
  "'a::{plus,times} tensor \<Rightarrow> 'a tensor \<Rightarrow> 'a list \<Rightarrow> 'a list \<Rightarrow> nat \<Rightarrow> 'a tensor \<Rightarrow>
     error + 'a tensor" where
  "decode_coord boxes deltas mean std i extent =
     ebind (index_axis2 boxes i) (\<lambda>b.
     ebind (index_axis2 deltas i) (\<lambda>d.
     ebind (py_index std i) (\<lambda>s.
     ebind (py_index mean i) (\<lambda>m.
     ebind (binop (*) (tmap (\<lambda>v. v * s + m) d) extent) (\<lambda>off.
     binop (+) b off)))))"

text \<open>
  The literal \<^verbatim>\<open>0.2\<close> of the default std, written with the operations of the element
  type: over the reals it is \<open>0.2\<close>, over the floating-point values \<open>Fin 0.2\<close>.
\<close>

definition lit_0_2 :: "'a::{one,plus,inverse}" where
  "lit_0_2 = 1 / (1 + 1 + 1 + 1 + 1)"

definition bbox_transform_inv ::
  "'a::{zero,one,plus,minus,times,inverse} tensor \<Rightarrow> 'a tensor \<Rightarrow> 'a list option \<Rightarrow>
     'a list option \<Rightarrow> error + 'a tensor" where
  "bbox_transform_inv boxes deltas mean_arg std_arg =
     (let mean = (case mean_arg of None \<Rightarrow> [0, 0, 0, 0] | Some m \<Rightarrow> m);
          std = (case std_arg of None \<Rightarrow> [lit_0_2, lit_0_2, lit_0_2, lit_0_2] | Some s \<Rightarrow> s)
      in
      ebind (index_axis2 boxes 2) (\<lambda>b2.
      ebind (index_axis2 boxes 0) (\<lambda>b0.
      ebind (binop (-) b2 b0) (\<lambda>width.
      ebind (index_axis2 boxes 3) (\<lambda>b3.
      ebind (index_axis2 boxes 1) (\<lambda>b1.
      ebind (binop (-) b3 b1) (\<lambda>height.
      ebind (decode_coord boxes deltas mean std 0 width) (\<lambda>x_1.
      ebind (decode_coord boxes deltas mean std 1 height) (\<lambda>y_1.
      ebind (decode_coord boxes deltas mean std 2 width) (\<lambda>x_2.
      ebind (decode_coord boxes deltas mean std 3 height) (\<lambda>y_2.
      stack [x_1, y_1, x_2, y_2] 2)))))))))))"

section \<open>Shifting anchors over the feature grid: \<^verbatim>\<open>backend/anchors.py\<close>\<close>

text \<open>
  The shifter is modelled over the reals. \<^verbatim>\<open>tf.keras.backend.arange(start=0, stop=n,
  dtype=floatx())\<close> is \<^verbatim>\<open>tf.range(0, n)\<close>, cast: the numbers \<open>0, ..., n - 1\<close>, none when
  \<open>n = 0\<close>; a negative \<open>n\<close> is refused by \<^verbatim>\<open>tf.range\<close> with an
  \<^verbatim>\<open>InvalidArgumentError\<close>.
\<close>

definition arange :: "int \<Rightarrow> error + real tensor" where
  "arange stop =
     (if stop < 0 then Inl InvalidArgumentError
      else Inr \<lparr>shape = [nat stop], elems = map real [0..<nat stop]\<rparr>)"

text \<open>
  \<^verbatim>\<open>tf.meshgrid(x, y)\<close> with the default indexing \<^verbatim>\<open>'xy'\<close>: two tensors of shape
  \<open>(length y, length x)\<close>; the first repeats \<open>x\<close> in every row, the second repeats
  \<open>y\<close> in every column.
\<close>

definition meshgrid :: "'a tensor \<Rightarrow> 'a tensor \<Rightarrow> 'a tensor \<times> 'a tensor" where
  "meshgrid x y =
     (let nx = prod_list (shape x); ny = prod_list (shape y)
      in (\<lparr>shape = [ny, nx], elems = map (\<lambda>p. elems x ! (p mod nx)) [0..<ny * nx]\<rparr>,
          \<lparr>shape = [ny, nx], elems = map (\<lambda>p. elems y ! (p div nx)) [0..<ny * nx]\<rparr>))"

text \<open>\<^verbatim>\<open>reshape(t, [-1])\<close> and \<^verbatim>\<open>reshape(t, s)\<close> for a shape \<open>s\<close> without \<open>-1\<close>.\<close>

definition flatten :: "'a tensor \<Rightarrow> 'a tensor" where
  "flatten t = \<lparr>shape = [prod_list (shape t)], elems = elems t\<rparr>"

definition reshape :: "'a tensor \<Rightarrow> nat list \<Rightarrow> error + 'a tensor" where
  "reshape t s =
     (if prod_list s = prod_list (shape t) then Inr \<lparr>shape = s, elems = elems t\<rparr>
      else Inl ShapeError)"

text \<open>\<^verbatim>\<open>tf.keras.backend.transpose(t)\<close> reverses the order of the axes.\<close>

definition transpose_t :: "'a tensor \<Rightarrow> 'a tensor" where
  "transpose_t t =
     \<lparr>shape = rev (shape t),
      elems = map (\<lambda>p. elems t ! ravel (shape t) (rev (unravel (rev (shape t)) p)))
                  [0..<prod_list (rev (shape t))]\<rparr>"

text \<open>
  The offset of the grid along one axis,
  \<^verbatim>\<open>cast(image_shape[i] - (features_shape[i] - 1) * stride, floatx()) / 2.0\<close>. The
  dimensions are integers; the stride is a real number, which covers an integer stride.
\<close>

definition offset :: "int \<Rightarrow> int \<Rightarrow> real \<Rightarrow> real" where
  "offset image_dim features_dim stride =
     (real_of_int image_dim - real_of_int (features_dim - 1) * stride) / 2"

definition shift ::
  "int list \<Rightarrow> int list \<Rightarrow> real \<Rightarrow> real tensor \<Rightarrow> error + real tensor" where
  "shift image_shape features_shape stride anchors =
     ebind (py_index image_shape 1) (\<lambda>image_w.
     ebind (py_index features_shape 1) (\<lambda>features_w.
     let offset_x = offset image_w features_w stride in
     ebind (py_index image_shape 0) (\<lambda>image_h.
     ebind (py_index features_shape 0) (\<lambda>features_h.
     let offset_y = offset image_h features_h stride in
     ebind (arange features_w) (\<lambda>range_x.
     let shift_x = tmap (\<lambda>v. v * stride + offset_x) range_x in
     ebind (arange features_h) (\<lambda>range_y.
     let shift_y = tmap (\<lambda>v. v * stride + offset_y) range_y;
         (mesh_x, mesh_y) = meshgrid shift_x shift_y;
         shift_x = flatten mesh_x;
         shift_y = flatten mesh_y
     in
     ebind (stack [shift_x, shift_y, shift_x, shift_y] 0) (\<lambda>shifts.
     let shifts = transpose_t shifts in
     ebind (py_index (shape anchors) 0) (\<lambda>number_of_anchors.
     ebind (py_index (shape shifts) 0) (\<lambda>k.
     ebind (reshape anchors [1, number_of_anchors, 4]) (\<lambda>anchors3.
     ebind (reshape shifts [k, 1, 4]) (\<lambda>shifts3.
     ebind (binop (+) anchors3 shifts3) (\<lambda>shifted_anchors.
     reshape shifted_anchors [k * number_of_anchors, 4]))))))))))))"

section \<open>Clipping boxes to the image: \<^verbatim>\<open>layers/clip_boxes.py\<close>\<close>






section \<open>The TensorFlow version check: \<^verbatim>\<open>utils/version.py\<close>\<close>





section \<open>Floating-point values\<close>

text \<open>
  The values of the floating-point type. A finite value is a real number; a result whose
  magnitude exceeds \<open>FLT_MAX\<close>, the largest finite value of the default
  \<^verbatim>\<open>floatx()\<close>, \<^verbatim>\<open>float32\<close>, overflows to an infinity, and the operations on infinities and
  NaN follow IEEE 754. Rounding of finite results and the sign of zero are not modelled.
\<close>

datatype fl = Fin real | PInf | MInf | NaN

definition FLT_MAX :: real where
  "FLT_MAX = 340282346638528859811704183484516925440"

definition overflow :: "real \<Rightarrow> fl" where
  "overflow r = (if FLT_MAX < r then PInf else if r < - FLT_MAX then MInf else Fin r)"

fun fl_add :: "fl \<Rightarrow> fl \<Rightarrow> fl" where
  "fl_add NaN y = NaN"
| "fl_add x NaN = NaN"
| "fl_add (Fin a) (Fin b) = overflow (a + b)"
| "fl_add PInf MInf = NaN"
| "fl_add MInf PInf = NaN"
| "fl_add PInf y = PInf"
| "fl_add x PInf = PInf"
| "fl_add MInf y = MInf"
| "fl_add x MInf = MInf"

fun fl_neg :: "fl \<Rightarrow> fl" where
  "fl_neg (Fin a) = Fin (- a)"
| "fl_neg PInf = MInf"
| "fl_neg MInf = PInf"
| "fl_neg NaN = NaN"

text \<open>The infinity of the sign of \<open>a\<close>, and NaN for zero: the product of \<open>a\<close> and \<open>+inf\<close>.\<close>

definition signed_inf :: "real \<Rightarrow> fl" where
  "signed_inf a = (if a = 0 then NaN else if 0 < a then PInf else MInf)"

fun fl_mul :: "fl \<Rightarrow> fl \<Rightarrow> fl" where
  "fl_mul NaN y = NaN"
| "fl_mul x NaN = NaN"
| "fl_mul (Fin a) (Fin b) = overflow (a * b)"
| "fl_mul (Fin a) PInf = signed_inf a"
| "fl_mul (Fin a) MInf = signed_inf (- a)"
| "fl_mul PInf (Fin b) = signed_inf b"
| "fl_mul MInf (Fin b) = signed_inf (- b)"
| "fl_mul PInf PInf = PInf"
| "fl_mul MInf MInf = PInf"
| "fl_mul PInf MInf = MInf"
| "fl_mul MInf PInf = MInf"

fun fl_div :: "fl \<Rightarrow> fl \<Rightarrow> fl" where
  "fl_div NaN y = NaN"
| "fl_div x NaN = NaN"
| "fl_div (Fin a) (Fin b) = (if b = 0 then signed_inf a else overflow (a / b))"
| "fl_div (Fin a) y = Fin 0"
| "fl_div PInf (Fin b) = (if 0 \<le> b then PInf else MInf)"
| "fl_div MInf (Fin b) = (if 0 \<le> b then MInf else PInf)"
| "fl_div x y = NaN"

fun fl_le :: "fl \<Rightarrow> fl \<Rightarrow> bool" where
  "fl_le NaN y = False"
| "fl_le x NaN = False"
| "fl_le (Fin a) (Fin b) = (a \<le> b)"
| "fl_le MInf y = True"
| "fl_le x PInf = True"
| "fl_le x y = False"

fun fl_less :: "fl \<Rightarrow> fl \<Rightarrow> bool" where
  "fl_less NaN y = False"
| "fl_less x NaN = False"
| "fl_less (Fin a) (Fin b) = (a < b)"
| "fl_less PInf y = False"
| "fl_less x MInf = False"
| "fl_less x y = True"

instantiation fl :: "{zero, one, plus, uminus, minus, times, inverse, ord}"
begin

definition zero_fl :: fl where "zero_fl = Fin 0"
definition one_fl :: fl where "one_fl = Fin 1"
definition plus_fl :: "fl \<Rightarrow> fl \<Rightarrow> fl" where "plus_fl = fl_add"
definition uminus_fl :: "fl \<Rightarrow> fl" where "uminus_fl = fl_neg"
definition minus_fl :: "fl \<Rightarrow> fl \<Rightarrow> fl" where "minus_fl x y = fl_add x (fl_neg y)"
definition times_fl :: "fl \<Rightarrow> fl \<Rightarrow> fl" where "times_fl = fl_mul"
definition divide_fl :: "fl \<Rightarrow> fl \<Rightarrow> fl" where "divide_fl = fl_div"
definition inverse_fl :: "fl \<Rightarrow> fl" where "inverse_fl x = fl_div (Fin 1) x"
definition less_eq_fl :: "fl \<Rightarrow> fl \<Rightarrow> bool" where "less_eq_fl = fl_le"
definition less_fl :: "fl \<Rightarrow> fl \<Rightarrow> bool" where "less_fl = fl_less"

instance ..

end

text \<open>A finite floating-point value: not an infinity, not NaN, and within the range.\<close>

definition finite_fl :: "fl \<Rightarrow> bool" where
  "finite_fl x = (case x of Fin a \<Rightarrow> \<bar>a\<bar> \<le> FLT_MAX | _ \<Rightarrow> False)"

section \<open>Reading tensors in statements\<close>

text \<open>
  The element of a tensor at a multi-index; the tensor of shape \<open>(B, N)\<close> whose element
  at flat position \<open>p\<close> is \<open>g p\<close>; the tensor of shape \<open>(B, N, C)\<close> whose element
  \<open>c\<close> of the row at flat position \<open>p\<close> is \<open>G p c\<close>.
\<close>

definition elem :: "'a tensor \<Rightarrow> nat list \<Rightarrow> 'a" where
  "elem t ix = elems t ! ravel (shape t) ix"

definition mat :: "nat \<Rightarrow> nat \<Rightarrow> (nat \<Rightarrow> 'a) \<Rightarrow> 'a tensor" where
  "mat B N g = \<lparr>shape = [B, N], elems = map g [0..<B * N]\<rparr>"

definition ten3 :: "nat \<Rightarrow> nat \<Rightarrow> nat \<Rightarrow> (nat \<Rightarrow> nat \<Rightarrow> 'a) \<Rightarrow> 'a tensor" where
  "ten3 B N C G =
     \<lparr>shape = [B, N, C], elems = map (\<lambda>q. G (q div C) (q mod C)) [0..<B * N * C]\<rparr>"

text \<open>
  The value that \<^const>\<open>decode_coord\<close> computes for coordinate \<open>i\<close> of the box at flat
  position \<open>p\<close>, when the extent is column \<open>hi\<close> minus column \<open>lo\<close> of the boxes.
\<close>

definition decoded ::
  "'a::{plus,minus,times} tensor \<Rightarrow> 'a tensor \<Rightarrow> 'a list \<Rightarrow> 'a list \<Rightarrow>
     nat \<Rightarrow> nat \<Rightarrow> nat \<Rightarrow> nat \<Rightarrow> nat \<Rightarrow> nat \<Rightarrow> 'a"
  where
  "decoded boxes deltas mean std C D i hi lo p =
     elems boxes ! (p * C + i) +
     (elems deltas ! (p * D + i) * std ! i + mean ! i) *
     (elems boxes ! (p * C + hi) - elems boxes ! (p * C + lo))"


text \<open>
  The tensor of shape \<open>(n)\<close> whose element at position \<open>j\<close> is \<open>g j\<close>, and
  coordinate \<open>c\<close> of the shift \<open>(shift_x, shift_y, shift_x, shift_y)\<close> of grid point
  \<open>k\<close> in a grid of width \<open>Wf\<close>.
\<close>

definition vec :: "nat \<Rightarrow> (nat \<Rightarrow> 'a) \<Rightarrow> 'a tensor" where
  "vec n g = \<lparr>shape = [n], elems = map g [0..<n]\<rparr>"

definition grid_shift :: "nat \<Rightarrow> real \<Rightarrow> real \<Rightarrow> real \<Rightarrow> nat \<Rightarrow> nat \<Rightarrow> real" where
  "grid_shift Wf stride offset_x offset_y k c =
     [real (k mod Wf) * stride + offset_x, real (k div Wf) * stride + offset_y,
      real (k mod Wf) * stride + offset_x, real (k div Wf) * stride + offset_y] ! c"

section \<open>Addressing lemmas\<close>

lemma ebind_Inl [simp]: "ebind (Inl e) f = Inl e"
  by (simp add: ebind_def)

lemma ebind_Inr [simp]: "ebind (Inr x) f = f x"
  by (simp add: ebind_def)

lemma flat2_less: "r < R \<Longrightarrow> c < C \<Longrightarrow> r * C + c < R * (C::nat)"
proof -
  assume r: "r < R" and c: "c < C"
  have "r * C + c < r * C + C" using c by simp
  also have "\<dots> = Suc r * C" by simp
  also have "\<dots> \<le> R * C" using r by (intro mult_le_mono1) simp
  finally show ?thesis .
qed

lemma flat3_less: "b < B \<Longrightarrow> n < N \<Longrightarrow> c < C \<Longrightarrow> (b * N + n) * C + c < B * N * (C::nat)"
  by (intro flat2_less) simp_all

lemma ravel3: "ravel [B, N, C] [b, n, c] = (b * N + n) * C + c"
  by (simp add: algebra_simps)

lemma split_index: "(p div N) * (N * C) + ((p mod N) * C + i) = p * C + (i::nat)"
proof -
  have "(p div N) * (N * C) + (p mod N) * C = ((p div N) * N + p mod N) * C"
    by (simp only: add_mult_distrib mult.assoc)
  then show ?thesis by simp
qed

lemma join_index: "(q div (N * C)) * N + q mod (N * C) div C = q div (C::nat)"
proof (cases "C = 0")
  case True
  then show ?thesis by simp
next
  case False
  have a: "q div (N * C) * (N * C) = (q div (N * C) * N) * C"
    by (simp only: mult.assoc)
  have "q div C = (q div (N * C) * (N * C) + q mod (N * C)) div C"
    by (simp only: div_mult_mod_eq)
  also have "\<dots> = ((q div (N * C) * N) * C + q mod (N * C)) div C"
    by (simp only: a)
  also have "\<dots> = q div (N * C) * N + q mod (N * C) div C"
    using False by simp
  finally show ?thesis by simp
qed

lemma last_index: "q mod (N * C) mod C = q mod (C::nat)"
  by (simp add: mod_mod_cancel)

lemma shape_mat [simp]: "shape (mat B N g) = [B, N]"
  by (simp add: mat_def)

lemma shape_ten3 [simp]: "shape (ten3 B N C G) = [B, N, C]"
  by (simp add: ten3_def)

lemma wf_ten3 [simp]: "wf (ten3 B N C G)"
  by (simp add: ten3_def wf_def)

lemma elem_ten3:
  assumes "b < B" and "n < N" and "c < C"
  shows "elem (ten3 B N C G) [b, n, c] = G (b * N + n) c"
proof -
  have "(b * N + n) * C + c < B * N * C" using assms by (rule flat3_less)
  then show ?thesis
    using assms(3) by (simp add: elem_def ten3_def ravel3 del: ravel.simps)
qed

lemma elem3: "shape t = [B, N, C] \<Longrightarrow> elem t [b, n, c] = elems t ! ((b * N + n) * C + c)"
  by (simp add: elem_def ravel3 del: ravel.simps)

lemma ten3_cong:
  assumes "\<And>p c. p < B * N \<Longrightarrow> c < C \<Longrightarrow> G p c = H p c"
  shows "ten3 B N C G = ten3 B N C H"
proof -
  have "G (q div C) (q mod C) = H (q div C) (q mod C)" if "q < B * N * C" for q
  proof -
    have "0 < C" using that by (cases "C = 0") simp_all
    moreover have "q div C < B * N" using that \<open>0 < C\<close> by (simp add: less_mult_imp_div_less)
    ultimately show ?thesis using assms by simp
  qed
  then show ?thesis by (simp add: ten3_def)
qed

lemma ten3_elems:
  assumes "wf t" and "shape t = [B, N, C]"
  shows "t = ten3 B N C (\<lambda>p c. elems t ! (p * C + c))"
proof -
  have "length (elems t) = B * N * C"
    using assms by (simp add: wf_def mult.assoc)
  then have "elems t = map (\<lambda>q. elems t ! q) [0..<B * N * C]"
    using map_nth [of "elems t"] by simp
  then have "elems t = map (\<lambda>q. elems t ! (q div C * C + q mod C)) [0..<B * N * C]"
    by simp
  then show ?thesis using assms(2) by (simp add: ten3_def)
qed

section \<open>The tensor operations on matrices\<close>

lemma index_axis2_mat:
  assumes "shape t = [B, N, C]" and "i < C"
  shows "index_axis2 t i = Inr (mat B N (\<lambda>p. elems t ! (p * C + i)))"
  using assms by (simp add: index_axis2_def mat_def split_index)

lemma bcast_index_same:
  assumes "p < B * N"
  shows "bcast_index [B, N] [p div N, p mod N] = p"
proof -
  have e: "bcast_index [B, N] [p div N, p mod N] =
      (if B = 1 then 0 else p div N) * N + (if N = 1 then 0 else p mod N)"
    by (simp add: bcast_index_def)
  have "(if B = 1 then 0 else p div N) = p div N" using assms by auto
  moreover have "(if N = 1 then 0 else p mod N) = p mod N" by simp
  ultimately show ?thesis unfolding e by simp
qed

lemma binop_mat: "binop f (mat B N g) (mat B N h) = Inr (mat B N (\<lambda>p. f (g p) (h p)))"
  by (simp add: binop_def mat_def pad_shape_def broadcast_dim_def Let_def bcast_index_same
      cong: map_cong)

lemma tmap_mat: "tmap f (mat B N g) = mat B N (\<lambda>p. f (g p))"
  by (simp add: tmap_def mat_def o_def)

lemma stack_axis2_list:
  assumes "ts \<noteq> []" and "\<forall>u\<in>set ts. shape u = [B, N]" and "k = length ts"
  shows "stack ts 2 = Inr (ten3 B N k (\<lambda>p c. elems (ts ! c) ! p))"
proof -
  have "shape (hd ts) = [B, N]" using assms by simp
  then show ?thesis
    using assms
    by (simp add: stack_def ten3_def list.case_eq_if list_all_iff Let_def join_index last_index
        mult.assoc)
qed

lemma stack_mat:
  "stack [mat B N g0, mat B N g1, mat B N g2, mat B N g3] 2 =
     Inr (ten3 B N 4 (\<lambda>p c. [g0 p, g1 p, g2 p, g3 p] ! c))"
proof -
  have "stack [mat B N g0, mat B N g1, mat B N g2, mat B N g3] 2 =
     Inr (ten3 B N 4 (\<lambda>p c. elems ([mat B N g0, mat B N g1, mat B N g2, mat B N g3] ! c) ! p))"
    by (rule stack_axis2_list) simp_all
  also have "ten3 B N 4 (\<lambda>p c. elems ([mat B N g0, mat B N g1, mat B N g2, mat B N g3] ! c) ! p) =
      ten3 B N 4 (\<lambda>p c. [g0 p, g1 p, g2 p, g3 p] ! c)"
  proof (rule ten3_cong)
    fix p c :: nat
    assume "p < B * N" and "c < 4"
    then consider "c = 0" | "c = 1" | "c = 2" | "c = 3" by linarith
    then show "elems ([mat B N g0, mat B N g1, mat B N g2, mat B N g3] ! c) ! p =
        [g0 p, g1 p, g2 p, g3 p] ! c"
      using \<open>p < B * N\<close> by cases (simp_all add: mat_def)
  qed
  finally show ?thesis .
qed

section \<open>The decoder on boxes and deltas of one shape\<close>

lemma decode_coord_mat:
  assumes "shape boxes = [B, N, C]" and "shape deltas = [B, N, D]" and "i < C" and "i < D"
    and "i < length mean" and "i < length std"
  shows "decode_coord boxes deltas mean std i (mat B N e) =
    Inr (mat B N (\<lambda>p. elems boxes ! (p * C + i) +
                          (elems deltas ! (p * D + i) * std ! i + mean ! i) * e p))"
  using assms
  by (simp add: decode_coord_def index_axis2_mat py_index_def tmap_mat binop_mat)

lemma bbox_transform_inv_eq:
  assumes "shape boxes = [B, N, C]" and "shape deltas = [B, N, D]" and "4 \<le> C" and "4 \<le> D"
    and "4 \<le> length mean" and "4 \<le> length std"
  shows "bbox_transform_inv boxes deltas (Some mean) (Some std) =
    Inr (ten3 B N 4 (\<lambda>p c. [decoded boxes deltas mean std C D 0 2 0 p,
                            decoded boxes deltas mean std C D 1 3 1 p,
                            decoded boxes deltas mean std C D 2 2 0 p,
                            decoded boxes deltas mean std C D 3 3 1 p] ! c))"
proof -
  have i: "0 < C" "1 < C" "2 < C" "3 < C" "0 < D" "1 < D" "2 < D" "3 < D"
    "0 < length mean" "1 < length mean" "2 < length mean" "3 < length mean"
    "0 < length std" "1 < length std" "2 < length std" "3 < length std"
    using assms by auto
  note sl = index_axis2_mat [OF assms(1)]
  note dc = decode_coord_mat [OF assms(1,2)]
  have w: "index_axis2 boxes 2 = Inr (mat B N (\<lambda>p. elems boxes ! (p * C + 2)))"
    "index_axis2 boxes 0 = Inr (mat B N (\<lambda>p. elems boxes ! (p * C + 0)))"
    "index_axis2 boxes 3 = Inr (mat B N (\<lambda>p. elems boxes ! (p * C + 3)))"
    "index_axis2 boxes 1 = Inr (mat B N (\<lambda>p. elems boxes ! (p * C + 1)))"
    using i by (simp_all only: sl)
  show ?thesis
    unfolding bbox_transform_inv_def Let_def option.case w ebind_Inr binop_mat
      dc [OF i(1) i(5) i(9) i(13)] dc [OF i(2) i(6) i(10) i(14)]
      dc [OF i(3) i(7) i(11) i(15)] dc [OF i(4) i(8) i(12) i(16)] stack_mat decoded_def
    by simp
qed

section \<open>The decoder on boxes and deltas of different shapes\<close>

lemma binop_rank2:
  assumes "shape a = [B, N]" and "shape b = [B', N']"
  shows "(B = B' \<or> B = 1 \<or> B' = 1) \<and> (N = N' \<or> N = 1 \<or> N' = 1) \<Longrightarrow>
      \<exists>g. binop f a b = Inr (mat (if B = 1 then B' else B) (if N = 1 then N' else N) g)"
    and "\<not> ((B = B' \<or> B = 1 \<or> B' = 1) \<and> (N = N' \<or> N = 1 \<or> N' = 1)) \<Longrightarrow>
      binop f a b = Inl ShapeError"
  using assms
  by (auto simp add: binop_def pad_shape_def broadcast_dim_def Let_def mat_def)

lemma decode_coord_rank2:
  assumes "shape boxes = [B, N, C]" and "shape deltas = [B', N', D]" and "i < C" and "i < D"
    and "i < length mean" and "i < length std"
  shows "(B = B' \<or> B = 1 \<or> B' = 1) \<and> (N = N' \<or> N = 1 \<or> N' = 1) \<Longrightarrow>
      \<exists>g. decode_coord boxes deltas mean std i (mat B N e) =
        Inr (mat (if B = 1 then B' else B) (if N = 1 then N' else N) g)"
    and "\<not> ((B = B' \<or> B = 1 \<or> B' = 1) \<and> (N = N' \<or> N = 1 \<or> N' = 1)) \<Longrightarrow>
      decode_coord boxes deltas mean std i (mat B N e) = Inl ShapeError"
proof -
  let ?d = "mat B' N' (\<lambda>p. elems deltas ! (p * D + i) * std ! i + mean ! i)"
  have start: "decode_coord boxes deltas mean std i (mat B N e) =
      ebind (binop (*) ?d (mat B N e))
        (binop (+) (mat B N (\<lambda>p. elems boxes ! (p * C + i))))"
    using assms by (simp add: decode_coord_def index_axis2_mat py_index_def tmap_mat)
  {
    assume ok: "(B = B' \<or> B = 1 \<or> B' = 1) \<and> (N = N' \<or> N = 1 \<or> N' = 1)"
    then have "(B' = B \<or> B' = 1 \<or> B = 1) \<and> (N' = N \<or> N' = 1 \<or> N = 1)" by auto
    from binop_rank2(1) [OF _ _ this, of ?d "mat B N e" "(*)"]
    obtain g where g: "binop (*) ?d (mat B N e) =
        Inr (mat (if B' = 1 then B else B') (if N' = 1 then N else N') g)"
      by auto
    let ?off = "mat (if B' = 1 then B else B') (if N' = 1 then N else N') g"
    have c: "(B = (if B' = 1 then B else B') \<or> B = 1 \<or> (if B' = 1 then B else B') = 1) \<and>
        (N = (if N' = 1 then N else N') \<or> N = 1 \<or> (if N' = 1 then N else N') = 1)"
      using ok by auto
    from binop_rank2(1) [OF _ _ c, of "mat B N (\<lambda>p. elems boxes ! (p * C + i))" ?off "(+)"]
    obtain h where "binop (+) (mat B N (\<lambda>p. elems boxes ! (p * C + i))) ?off =
        Inr (mat (if B = 1 then (if B' = 1 then B else B') else B)
                 (if N = 1 then (if N' = 1 then N else N') else N) h)"
      by auto
    moreover have "(if B = 1 then (if B' = 1 then B else B') else B) = (if B = 1 then B' else B)"
      "(if N = 1 then (if N' = 1 then N else N') else N) = (if N = 1 then N' else N)"
      by auto
    ultimately show "\<exists>g. decode_coord boxes deltas mean std i (mat B N e) =
        Inr (mat (if B = 1 then B' else B) (if N = 1 then N' else N) g)"
      using start g by auto
  }
  {
    assume bad: "\<not> ((B = B' \<or> B = 1 \<or> B' = 1) \<and> (N = N' \<or> N = 1 \<or> N' = 1))"
    then have "\<not> ((B' = B \<or> B' = 1 \<or> B = 1) \<and> (N' = N \<or> N' = 1 \<or> N = 1))" by auto
    from binop_rank2(2) [OF _ _ this, of ?d "mat B N e" "(*)"]
    have "binop (*) ?d (mat B N e) = Inl ShapeError" by simp
    then show "decode_coord boxes deltas mean std i (mat B N e) = Inl ShapeError"
      using start by simp
  }
qed

section \<open>Arithmetic of finite floating-point values\<close>

lemma FLT_MAX_pos: "0 < FLT_MAX"
  by (simp add: FLT_MAX_def)

lemma finite_fl_Fin: "finite_fl x \<Longrightarrow> \<exists>a. x = Fin a \<and> \<bar>a\<bar> \<le> FLT_MAX"
  by (cases x) (simp_all add: finite_fl_def)

lemma overflow_id: "\<bar>a\<bar> \<le> FLT_MAX \<Longrightarrow> overflow a = Fin a"
  by (auto simp add: overflow_def)

lemma overflow_0 [simp]: "overflow 0 = Fin 0"
  using FLT_MAX_pos by (simp add: overflow_def)


lemma fl_mult_zero_left: "finite_fl x \<Longrightarrow> 0 * x = (0::fl)"
  by (auto dest!: finite_fl_Fin simp add: times_fl_def zero_fl_def)

lemma fl_add_zero_zero: "0 + 0 = (0::fl)"
  by (simp add: plus_fl_def zero_fl_def)

lemma fl_add_zero_right: "finite_fl x \<Longrightarrow> x + 0 = x"
  by (auto dest!: finite_fl_Fin simp add: plus_fl_def zero_fl_def overflow_id)

lemma decoded_zero_delta:
  assumes "finite_fl (elems boxes ! (p * C + i))" and "elems deltas ! (p * D + i) = 0"
    and "finite_fl (std ! i)" and "mean ! i = 0"
    and "finite_fl (elems boxes ! (p * C + hi) - elems boxes ! (p * C + lo))"
  shows "decoded boxes deltas mean std C D i hi lo p = elems boxes ! (p * C + i)"
  using assms
  by (simp add: decoded_def fl_mult_zero_left fl_add_zero_zero fl_add_zero_right)


lemma unflat:
  assumes "p < B * (N::nat)"
  shows "p div N < B" and "p mod N < N" and "p div N * N + p mod N = p"
proof -
  have "0 < N" using assms by (cases "N = 0") simp_all
  then show "p mod N < N" by simp
  show "p div N < B" using assms by (simp add: less_mult_imp_div_less)
  show "p div N * N + p mod N = p" by simp
qed

section \<open>Claims about the decoder\<close>

text \<open>
  Claim C2. For boxes and deltas of one shape \<open>(B, N, 4)\<close> and a mean and a std of four
  elements, \<^const>\<open>bbox_transform_inv\<close> returns a tensor of the shape of the boxes whose
  entry for batch element \<open>b\<close> and box \<open>n\<close> is
  \<open>(x1 + (dx1 * std[0] + mean[0]) * (x2 - x1), y1 + (dy1 * std[1] + mean[1]) * (y2 - y1),
    x2 + (dx2 * std[2] + mean[2]) * (x2 - x1), y2 + (dy2 * std[3] + mean[3]) * (y2 - y1))\<close>.
  In particular the box \<open>(0, 0, 10, 10)\<close> with the delta \<open>(0.5, 0, 0, 0)\<close>, the mean
  \<open>[0, 0, 0, 0]\<close> and the std \<open>[1, 1, 1, 1]\<close> decodes to \<open>(5, 0, 10, 10)\<close>. The formula is stated over the
  reals.
\<close>

theorem bbox_transform_inv_formula:
  assumes "shape (boxes :: real tensor) = [B, N, 4]" and "shape deltas = [B, N, 4]"
    and "length mean = 4" and "length std = 4"
  shows "(\<exists>out. bbox_transform_inv boxes deltas (Some mean) (Some std) = Inr out \<and>
      shape out = shape boxes \<and> wf out \<and>
      (\<forall>b<B. \<forall>n<N.
         elem out [b, n, 0] = elem boxes [b, n, 0] +
           (elem deltas [b, n, 0] * std ! 0 + mean ! 0) * (elem boxes [b, n, 2] - elem boxes [b, n, 0]) \<and>
         elem out [b, n, 1] = elem boxes [b, n, 1] +
           (elem deltas [b, n, 1] * std ! 1 + mean ! 1) * (elem boxes [b, n, 3] - elem boxes [b, n, 1]) \<and>
         elem out [b, n, 2] = elem boxes [b, n, 2] +
           (elem deltas [b, n, 2] * std ! 2 + mean ! 2) * (elem boxes [b, n, 2] - elem boxes [b, n, 0]) \<and>
         elem out [b, n, 3] = elem boxes [b, n, 3] +
           (elem deltas [b, n, 3] * std ! 3 + mean ! 3) * (elem boxes [b, n, 3] - elem boxes [b, n, 1]))) \<and>
    bbox_transform_inv \<lparr>shape = [1, 1, 4], elems = [0 :: real, 0, 10, 10]\<rparr>
      \<lparr>shape = [1, 1, 4], elems = [0.5, 0, 0, 0]\<rparr> (Some [0, 0, 0, 0]) (Some [1, 1, 1, 1]) =
      Inr \<lparr>shape = [1, 1, 4], elems = [5, 0, 10, 10]\<rparr>"
    (is "(\<exists>out. ?R out) \<and> ?E")
proof (intro conjI)
  let ?G = "\<lambda>p c. [decoded boxes deltas mean std 4 4 0 2 0 p,
                    decoded boxes deltas mean std 4 4 1 3 1 p,
                    decoded boxes deltas mean std 4 4 2 2 0 p,
                    decoded boxes deltas mean std 4 4 3 3 1 p] ! c"
  have eq: "bbox_transform_inv boxes deltas (Some mean) (Some std) = Inr (ten3 B N 4 ?G)"
    using assms by (intro bbox_transform_inv_eq) simp_all
  have "elem (ten3 B N 4 ?G) [b, n, c] = ?G (b * N + n) c" if "b < B" "n < N" "c < 4" for b n c
    using that by (rule elem_ten3)
  then have "\<forall>b<B. \<forall>n<N.
         elem (ten3 B N 4 ?G) [b, n, 0] = elem boxes [b, n, 0] +
           (elem deltas [b, n, 0] * std ! 0 + mean ! 0) * (elem boxes [b, n, 2] - elem boxes [b, n, 0]) \<and>
         elem (ten3 B N 4 ?G) [b, n, 1] = elem boxes [b, n, 1] +
           (elem deltas [b, n, 1] * std ! 1 + mean ! 1) * (elem boxes [b, n, 3] - elem boxes [b, n, 1]) \<and>
         elem (ten3 B N 4 ?G) [b, n, 2] = elem boxes [b, n, 2] +
           (elem deltas [b, n, 2] * std ! 2 + mean ! 2) * (elem boxes [b, n, 2] - elem boxes [b, n, 0]) \<and>
         elem (ten3 B N 4 ?G) [b, n, 3] = elem boxes [b, n, 3] +
           (elem deltas [b, n, 3] * std ! 3 + mean ! 3) * (elem boxes [b, n, 3] - elem boxes [b, n, 1])"
    by (simp add: elem3 [OF assms(1)] elem3 [OF assms(2)] decoded_def)
  moreover have "shape (ten3 B N 4 ?G) = shape boxes" using assms(1) by simp
  moreover have "wf (ten3 B N 4 ?G)" by simp
  ultimately have "?R (ten3 B N 4 ?G)" using eq by (intro conjI)
  then show "\<exists>out. ?R out" by (rule exI [of _ "ten3 B N 4 ?G"])
next
  show ?E by code_simp
qed

theorem bbox_transform_inv_formula_witness:
  "shape \<lparr>shape = [1, 2, 4], elems = [0 :: real, 0, 10, 10, 2, 4, 6, 12]\<rparr> = [1, 2, 4] \<and>
   shape \<lparr>shape = [1, 2, 4], elems = [1 :: real, 0, 0, 0, 1, 2, 3, 4]\<rparr> = [1, 2, 4] \<and>
   length [1, 0, 0, 0 :: real] = 4 \<and> length [1 / 2, 1, 1, 1 :: real] = 4 \<and>
   (\<exists>out. bbox_transform_inv \<lparr>shape = [1, 2, 4], elems = [0 :: real, 0, 10, 10, 2, 4, 6, 12]\<rparr>
        \<lparr>shape = [1, 2, 4], elems = [1 :: real, 0, 0, 0, 1, 2, 3, 4]\<rparr>
        (Some [1, 0, 0, 0]) (Some [1 / 2, 1, 1, 1]) = Inr out \<and>
      shape out = [1, 2, 4] \<and>
      elem out [0, 1, 0] = 8 \<and> elem out [0, 1, 1] = 20 \<and>
      elem out [0, 1, 2] = 18 \<and> elem out [0, 1, 3] = 44)"
proof -
  let ?b = "\<lparr>shape = [1, 2, 4], elems = [0 :: real, 0, 10, 10, 2, 4, 6, 12]\<rparr>"
  let ?d = "\<lparr>shape = [1, 2, 4], elems = [1 :: real, 0, 0, 0, 1, 2, 3, 4]\<rparr>"
  have h: "shape ?b = [1, 2, 4]" "shape ?d = [1, 2, 4]"
    "length [1, 0, 0, 0 :: real] = 4" "length [1 / 2, 1, 1, 1 :: real] = 4"
    by simp_all
  from bbox_transform_inv_formula [OF h] obtain out where
    o: "bbox_transform_inv ?b ?d (Some [1, 0, 0, 0]) (Some [1 / 2, 1, 1, 1]) = Inr out"
      "shape out = shape ?b"
    and e: "\<forall>b<1. \<forall>n<2.
         elem out [b, n, 0] = elem ?b [b, n, 0] +
           (elem ?d [b, n, 0] * [1 / 2, 1, 1, 1] ! 0 + [1, 0, 0, 0] ! 0) * (elem ?b [b, n, 2] - elem ?b [b, n, 0]) \<and>
         elem out [b, n, 1] = elem ?b [b, n, 1] +
           (elem ?d [b, n, 1] * [1 / 2, 1, 1, 1] ! 1 + [1, 0, 0, 0] ! 1) * (elem ?b [b, n, 3] - elem ?b [b, n, 1]) \<and>
         elem out [b, n, 2] = elem ?b [b, n, 2] +
           (elem ?d [b, n, 2] * [1 / 2, 1, 1, 1] ! 2 + [1, 0, 0, 0] ! 2) * (elem ?b [b, n, 2] - elem ?b [b, n, 0]) \<and>
         elem out [b, n, 3] = elem ?b [b, n, 3] +
           (elem ?d [b, n, 3] * [1 / 2, 1, 1, 1] ! 3 + [1, 0, 0, 0] ! 3) * (elem ?b [b, n, 3] - elem ?b [b, n, 1])"
    by (elim exE conjE) (rule that)
  have i: "(0::nat) < 1" "(1::nat) < 2" by simp_all
  have "elem out [0, 1, 0] = 8 \<and> elem out [0, 1, 1] = 20 \<and>
      elem out [0, 1, 2] = 18 \<and> elem out [0, 1, 3] = 44"
    using e [rule_format, OF i] by (simp add: elem_def)
  with o show ?thesis by simp
qed

text \<open>
  Claim C7, as the code has it, over the floating-point values. For boxes of shape
  \<open>(B, N, 4)\<close> whose coordinates are finite and whose widths \<open>x2 - x1\<close> and heights
  \<open>y2 - y1\<close> do not overflow, deltas of that shape that are all zero, the mean
  \<open>[0, 0, 0, 0]\<close> (given, or left out: it is the default) and any std of four finite
  elements, \<^const>\<open>bbox_transform_inv\<close> returns the boxes unchanged.
\<close>

theorem bbox_transform_inv_zero_deltas:
  assumes "wf boxes" and "shape boxes = [B, N, 4]"
    and "wf deltas" and "shape deltas = [B, N, 4]" and "\<forall>d\<in>set (elems deltas). d = 0"
    and "length std = 4" and "\<forall>s\<in>set std. finite_fl s"
    and "\<forall>v\<in>set (elems boxes). finite_fl v"
    and "\<forall>b<B. \<forall>n<N. finite_fl (elem boxes [b, n, 2] - elem boxes [b, n, 0]) \<and>
                     finite_fl (elem boxes [b, n, 3] - elem boxes [b, n, 1])"
  shows "bbox_transform_inv boxes deltas (Some [0, 0, 0, 0]) (Some std) = Inr boxes \<and>
    bbox_transform_inv boxes deltas None (Some std) = Inr boxes"
proof -
  let ?mean = "[0, 0, 0, 0] :: fl list"
  let ?G = "\<lambda>p c. [decoded boxes deltas ?mean std 4 4 0 2 0 p,
                    decoded boxes deltas ?mean std 4 4 1 3 1 p,
                    decoded boxes deltas ?mean std 4 4 2 2 0 p,
                    decoded boxes deltas ?mean std 4 4 3 3 1 p] ! c"
  have eq: "bbox_transform_inv boxes deltas (Some ?mean) (Some std) = Inr (ten3 B N 4 ?G)"
    using assms by (intro bbox_transform_inv_eq) simp_all
  have lenb: "length (elems boxes) = B * N * 4"
    using assms(1,2) by (simp add: wf_def mult.assoc)
  have lend: "length (elems deltas) = B * N * 4"
    using assms(3,4) by (simp add: wf_def mult.assoc)
  have s: "finite_fl (std ! c)" if "c < 4" for c
    using assms(6,7) that by simp
  have "ten3 B N 4 ?G = ten3 B N 4 (\<lambda>p c. elems boxes ! (p * 4 + c))"
  proof (rule ten3_cong)
    fix p c :: nat
    assume p: "p < B * N" and c: "c < 4"
    have ix: "p * 4 + k < B * N * 4" if "k < 4" for k
      using p that by (rule flat2_less)
    have z: "elems deltas ! (p * 4 + k) = 0" if "k < 4" for k
    proof -
      have "elems deltas ! (p * 4 + k) \<in> set (elems deltas)" using ix [OF that] lend by simp
      then show ?thesis using assms(5) by blast
    qed
    have f: "finite_fl (elems boxes ! (p * 4 + k))" if "k < 4" for k
    proof -
      have "elems boxes ! (p * 4 + k) \<in> set (elems boxes)" using ix [OF that] lenb by simp
      then show ?thesis using assms(8) by blast
    qed
    note u = unflat [OF p]
    have e: "elem boxes [p div N, p mod N, k] = elems boxes ! (p * 4 + k)" for k
      using u(3) by (simp add: elem3 [OF assms(2)])
    have ext: "finite_fl (elems boxes ! (p * 4 + 2) - elems boxes ! (p * 4 + 0))"
      "finite_fl (elems boxes ! (p * 4 + 3) - elems boxes ! (p * 4 + 1))"
      using assms(9) [rule_format, OF u(1) u(2)] unfolding e by simp_all
    have d: "decoded boxes deltas ?mean std 4 4 0 2 0 p = elems boxes ! (p * 4 + 0)"
      "decoded boxes deltas ?mean std 4 4 1 3 1 p = elems boxes ! (p * 4 + 1)"
      "decoded boxes deltas ?mean std 4 4 2 2 0 p = elems boxes ! (p * 4 + 2)"
      "decoded boxes deltas ?mean std 4 4 3 3 1 p = elems boxes ! (p * 4 + 3)"
      using f [of 0] f [of 1] f [of 2] f [of 3] z [of 0] z [of 1] z [of 2] z [of 3]
        s [of 0] s [of 1] s [of 2] s [of 3] ext
      by (simp_all add: decoded_zero_delta)
    from c consider "c = 0" | "c = 1" | "c = 2" | "c = 3" by linarith
    then show "?G p c = elems boxes ! (p * 4 + c)"
      using d by cases simp_all
  qed
  also have "\<dots> = boxes" using ten3_elems [OF assms(1,2)] by simp
  finally have "bbox_transform_inv boxes deltas (Some ?mean) (Some std) = Inr boxes"
    using eq by simp
  moreover have "bbox_transform_inv boxes deltas None (Some std) =
      bbox_transform_inv boxes deltas (Some ?mean) (Some std)"
    by (simp add: bbox_transform_inv_def)
  ultimately show ?thesis by simp
qed

theorem bbox_transform_inv_zero_deltas_witness:
  "finite_fl (Fin 12) \<and>
   bbox_transform_inv
     \<lparr>shape = [1, 2, 4], elems = [Fin 0, Fin 0, Fin 10, Fin 10, Fin 2, Fin 4, Fin 6, Fin 12]\<rparr>
     \<lparr>shape = [1, 2, 4], elems = [0, 0, 0, 0, 0, 0, 0, 0]\<rparr>
     (Some [0, 0, 0, 0]) (Some [Fin 3, Fin 0, Fin (- 1), Fin (1 / 5)]) =
     Inr \<lparr>shape = [1, 2, 4], elems = [Fin 0, Fin 0, Fin 10, Fin 10, Fin 2, Fin 4, Fin 6, Fin 12]\<rparr>"
proof -
  let ?b = "\<lparr>shape = [1, 2, 4], elems = [Fin 0, Fin 0, Fin 10, Fin 10, Fin 2, Fin 4, Fin 6, Fin 12]\<rparr>"
  let ?d = "\<lparr>shape = [1, 2, 4], elems = [0, 0, 0, 0, 0, 0, 0, 0 :: fl]\<rparr>"
  have h: "wf ?b" "shape ?b = [1, 2, 4]" "wf ?d" "shape ?d = [1, 2, 4]"
    "\<forall>d\<in>set (elems ?d). d = 0" "length [Fin 3, Fin 0, Fin (- 1), Fin (1 / 5)] = 4"
    "\<forall>s\<in>set [Fin 3, Fin 0, Fin (- 1), Fin (1 / 5)]. finite_fl s"
    "\<forall>v\<in>set (elems ?b). finite_fl v"
    by (simp_all add: wf_def finite_fl_def FLT_MAX_def)
  have e: "\<forall>b<1. \<forall>n<2. finite_fl (elem ?b [b, n, 2] - elem ?b [b, n, 0]) \<and>
                     finite_fl (elem ?b [b, n, 3] - elem ?b [b, n, 1])"
    by (auto simp add: elem_def minus_fl_def finite_fl_def overflow_def FLT_MAX_def less_2_cases_iff)
  have "finite_fl (Fin 12)" by (simp add: finite_fl_def FLT_MAX_def)
  then show ?thesis
    using bbox_transform_inv_zero_deltas [OF h e] by simp
qed

text \<open>
  The claim as the specification words it, for every boxes array and every std, fails
  where a product \<open>0 * inf\<close> arises, which is NaN: for the finite box
  \<open>(-3e38, -3e38, 3e38, 3e38)\<close>, whose width and height overflow to \<open>+inf\<close>, all
  four decoded coordinates are NaN; for the box \<open>(0, 0, 10, 10)\<close> and an infinite
  \<open>std[0]\<close> the decoded \<open>x1\<close> is NaN; and for the box \<open>(0, 0, +inf, 10)\<close> the
  decoded \<open>x1\<close> and \<open>x2\<close> are NaN.
\<close>

theorem bbox_transform_inv_zero_deltas_counterexample:
  "finite_fl (Fin 300000000000000000000000000000000000000) \<and>
   finite_fl (Fin (- 300000000000000000000000000000000000000)) \<and>
   bbox_transform_inv
     \<lparr>shape = [1, 1, 4],
      elems = [Fin (- 300000000000000000000000000000000000000),
               Fin (- 300000000000000000000000000000000000000),
               Fin 300000000000000000000000000000000000000,
               Fin 300000000000000000000000000000000000000]\<rparr>
     \<lparr>shape = [1, 1, 4], elems = [0, 0, 0, 0]\<rparr> (Some [0, 0, 0, 0]) (Some [1, 1, 1, 1]) =
     Inr \<lparr>shape = [1, 1, 4], elems = [NaN, NaN, NaN, NaN]\<rparr> \<and>
   bbox_transform_inv \<lparr>shape = [1, 1, 4], elems = [Fin 0, Fin 0, Fin 10, Fin 10]\<rparr>
     \<lparr>shape = [1, 1, 4], elems = [0, 0, 0, 0]\<rparr> (Some [0, 0, 0, 0]) (Some [PInf, 1, 1, 1]) =
     Inr \<lparr>shape = [1, 1, 4], elems = [NaN, Fin 0, Fin 10, Fin 10]\<rparr> \<and>
   bbox_transform_inv \<lparr>shape = [1, 1, 4], elems = [Fin 0, Fin 0, PInf, Fin 10]\<rparr>
     \<lparr>shape = [1, 1, 4], elems = [0, 0, 0, 0]\<rparr> (Some [0, 0, 0, 0]) (Some [1, 1, 1, 1]) =
     Inr \<lparr>shape = [1, 1, 4], elems = [NaN, Fin 0, NaN, Fin 10]\<rparr>"
  by code_simp




text \<open>
  Claim C4, as the code has it. The decoder has no check of its own on the two shapes: a
  call fails only where TensorFlow cannot broadcast them. For boxes of shape
  \<open>(B, N, 4)\<close> and deltas of shape \<open>(B', N', 4)\<close> it fails with a shape error
  exactly when the batch sizes or the box counts differ and neither is 1, as for the
  shapes \<open>(1, 3, 4)\<close> and \<open>(1, 4, 4)\<close>; otherwise it returns boxes of the broadcast
  shape, also when the two shapes differ.
\<close>

theorem bbox_transform_inv_broadcast:
  assumes "shape (boxes :: real tensor) = [B, N, 4]" and "shape deltas = [B', N', 4]"
    and "length mean = 4" and "length std = 4"
  shows "(if (B = B' \<or> B = 1 \<or> B' = 1) \<and> (N = N' \<or> N = 1 \<or> N' = 1)
      then \<exists>out. bbox_transform_inv boxes deltas (Some mean) (Some std) = Inr out \<and>
             shape out = [if B = 1 then B' else B, if N = 1 then N' else N, 4]
      else bbox_transform_inv boxes deltas (Some mean) (Some std) = Inl ShapeError) \<and>
    bbox_transform_inv \<lparr>shape = [1, 3, 4], elems = [0 :: real, 0, 10, 10, 1, 1, 2, 3, 4, 4, 8, 8]\<rparr>
      \<lparr>shape = [1, 4, 4], elems = [0 :: real, 0, 0, 0, 0, 0, 0, 0, 0, 0, 0, 0, 0, 0, 0, 0]\<rparr>
      (Some [0, 0, 0, 0]) (Some [1, 1, 1, 1]) = Inl ShapeError"
    (is "(if ?ok then ?good else ?bad) \<and> ?E")
proof (intro conjI)
  have i: "0 < (4::nat)" "1 < (4::nat)" "2 < (4::nat)" "3 < (4::nat)"
    "0 < length mean" "1 < length mean" "2 < length mean" "3 < length mean"
    "0 < length std" "1 < length std" "2 < length std" "3 < length std"
    using assms by auto
  note sl = index_axis2_mat [OF assms(1)]
  have w: "index_axis2 boxes 2 = Inr (mat B N (\<lambda>p. elems boxes ! (p * 4 + 2)))"
    "index_axis2 boxes 0 = Inr (mat B N (\<lambda>p. elems boxes ! (p * 4 + 0)))"
    "index_axis2 boxes 3 = Inr (mat B N (\<lambda>p. elems boxes ! (p * 4 + 3)))"
    "index_axis2 boxes 1 = Inr (mat B N (\<lambda>p. elems boxes ! (p * 4 + 1)))"
    using i by (simp_all only: sl)
  let ?w = "mat B N (\<lambda>p. elems boxes ! (p * 4 + 2) - elems boxes ! (p * 4 + 0))"
  let ?h = "mat B N (\<lambda>p. elems boxes ! (p * 4 + 3) - elems boxes ! (p * 4 + 1))"
  have start: "bbox_transform_inv boxes deltas (Some mean) (Some std) =
      ebind (decode_coord boxes deltas mean std 0 ?w) (\<lambda>x_1.
      ebind (decode_coord boxes deltas mean std 1 ?h) (\<lambda>y_1.
      ebind (decode_coord boxes deltas mean std 2 ?w) (\<lambda>x_2.
      ebind (decode_coord boxes deltas mean std 3 ?h) (\<lambda>y_2.
      stack [x_1, y_1, x_2, y_2] 2))))"
    unfolding bbox_transform_inv_def Let_def option.case w ebind_Inr binop_mat ..
  note dc = decode_coord_rank2 [OF assms(1,2)]
  show "if ?ok then ?good else ?bad"
  proof (cases ?ok)
    case True
    let ?S0 = "if B = 1 then B' else B" and ?S1 = "if N = 1 then N' else N"
    obtain g0 where g0: "decode_coord boxes deltas mean std 0 ?w = Inr (mat ?S0 ?S1 g0)"
      using dc(1) [OF i(1) i(1) i(5) i(9) True] by auto
    obtain g1 where g1: "decode_coord boxes deltas mean std 1 ?h = Inr (mat ?S0 ?S1 g1)"
      using dc(1) [OF i(2) i(2) i(6) i(10) True] by auto
    obtain g2 where g2: "decode_coord boxes deltas mean std 2 ?w = Inr (mat ?S0 ?S1 g2)"
      using dc(1) [OF i(3) i(3) i(7) i(11) True] by auto
    obtain g3 where g3: "decode_coord boxes deltas mean std 3 ?h = Inr (mat ?S0 ?S1 g3)"
      using dc(1) [OF i(4) i(4) i(8) i(12) True] by auto
    have "bbox_transform_inv boxes deltas (Some mean) (Some std) =
        Inr (ten3 ?S0 ?S1 4 (\<lambda>p c. [g0 p, g1 p, g2 p, g3 p] ! c))"
      unfolding start g0 g1 g2 g3 ebind_Inr stack_mat ..
    then have ?good
      by (intro exI [of _ "ten3 ?S0 ?S1 4 (\<lambda>p c. [g0 p, g1 p, g2 p, g3 p] ! c)"]) simp
    with True show ?thesis by simp
  next
    case False
    have "decode_coord boxes deltas mean std 0 ?w = Inl ShapeError"
      using dc(2) [OF i(1) i(1) i(5) i(9) False] .
    then have ?bad unfolding start by simp
    with False show ?thesis by simp
  qed
next
  show ?E by code_simp
qed

theorem bbox_transform_inv_broadcast_witness:
  "\<exists>out. bbox_transform_inv \<lparr>shape = [1, 3, 4], elems = [0 :: real, 0, 10, 10, 1, 1, 2, 3, 4, 4, 8, 8]\<rparr>
      \<lparr>shape = [1, 1, 4], elems = [1 / 2 :: real, 0, 0, 0]\<rparr> (Some [0, 0, 0, 0]) (Some [1, 1, 1, 1]) =
      Inr out \<and> shape out = [1, 3, 4]"
proof -
  let ?b = "\<lparr>shape = [1, 3, 4], elems = [0 :: real, 0, 10, 10, 1, 1, 2, 3, 4, 4, 8, 8]\<rparr>"
  let ?d = "\<lparr>shape = [1, 1, 4], elems = [1 / 2 :: real, 0, 0, 0]\<rparr>"
  have h: "shape ?b = [1, 3, 4]" "shape ?d = [1, 1, 4]"
    "length [0, 0, 0, 0 :: real] = 4" "length [1, 1, 1, 1 :: real] = 4"
    by simp_all
  show ?thesis
    using bbox_transform_inv_broadcast [OF h] by simp
qed

text \<open>
  Claim C4 as stated fails: boxes of shape \<open>(1, 3, 4)\<close> and deltas of shape
  \<open>(1, 1, 4)\<close> differ in shape, and the call is not rejected: the one delta is applied to
  all three boxes.
\<close>

theorem bbox_transform_inv_broadcast_counterexample:
  "shape \<lparr>shape = [1, 3, 4], elems = [0 :: real, 0, 10, 10, 1, 1, 2, 3, 4, 4, 8, 8]\<rparr> \<noteq>
     shape \<lparr>shape = [1, 1, 4], elems = [1 / 2 :: real, 0, 0, 0]\<rparr> \<and>
   bbox_transform_inv \<lparr>shape = [1, 3, 4], elems = [0 :: real, 0, 10, 10, 1, 1, 2, 3, 4, 4, 8, 8]\<rparr>
     \<lparr>shape = [1, 1, 4], elems = [1 / 2 :: real, 0, 0, 0]\<rparr> (Some [0, 0, 0, 0]) (Some [1, 1, 1, 1]) =
     Inr \<lparr>shape = [1, 3, 4], elems = [5, 0, 10, 10, 3 / 2, 1, 2, 3, 6, 4, 8, 8]\<rparr>"
  by code_simp

section \<open>The clipper in closed form\<close>












section \<open>Claims about the clipper\<close>






section \<open>The shifter in closed form\<close>

lemma mat_cong:
  assumes "\<And>p. p < R * C \<Longrightarrow> g p = h p"
  shows "mat R C g = mat R C h"
  using assms by (simp add: mat_def)

lemma arange_vec: "0 \<le> n \<Longrightarrow> arange n = Inr (vec (nat n) real)"
  by (simp add: arange_def vec_def)

lemma arange_negative: "n < 0 \<Longrightarrow> arange n = Inl InvalidArgumentError"
  by (simp add: arange_def)

lemma tmap_vec: "tmap f (vec n g) = vec n (\<lambda>j. f (g j))"
  by (simp add: tmap_def vec_def o_def)

lemma meshgrid_vec:
  "meshgrid (vec nx gx) (vec ny gy) =
     (mat ny nx (\<lambda>p. gx (p mod nx)), mat ny nx (\<lambda>p. gy (p div nx)))"
proof -
  have "map gx [0..<nx] ! (p mod nx) = gx (p mod nx)" if "p < ny * nx" for p
  proof -
    have "0 < nx" using that by (cases "nx = 0") simp_all
    then show ?thesis by simp
  qed
  moreover have "map gy [0..<ny] ! (p div nx) = gy (p div nx)" if "p < ny * nx" for p
  proof -
    have "p div nx < ny" using that by (simp add: less_mult_imp_div_less)
    then show ?thesis by simp
  qed
  ultimately show ?thesis
    by (simp add: meshgrid_def vec_def mat_def Let_def)
qed

lemma flatten_mat: "flatten (mat R C g) = vec (R * C) g"
  by (simp add: flatten_def mat_def vec_def)

lemma stack_axis0_list:
  assumes "ts \<noteq> []" and "\<forall>u\<in>set ts. shape u = [K]" and "k = length ts"
  shows "stack ts 0 = Inr (mat k K (\<lambda>p. elems (ts ! (p div K)) ! (p mod K)))"
proof -
  have "shape (hd ts) = [K]" using assms by simp
  then show ?thesis
    using assms by (simp add: stack_def mat_def list.case_eq_if list_all_iff Let_def)
qed

lemma stack_axis0_vec:
  "stack [vec K g0, vec K g1, vec K g2, vec K g3] 0 =
     Inr (mat 4 K (\<lambda>p. [g0 (p mod K), g1 (p mod K), g2 (p mod K), g3 (p mod K)] ! (p div K)))"
proof -
  let ?ts = "[vec K g0, vec K g1, vec K g2, vec K g3]"
  have "stack ?ts 0 = Inr (mat 4 K (\<lambda>p. elems (?ts ! (p div K)) ! (p mod K)))"
    by (rule stack_axis0_list) (simp_all add: vec_def)
  also have "mat 4 K (\<lambda>p. elems (?ts ! (p div K)) ! (p mod K)) =
      mat 4 K (\<lambda>p. [g0 (p mod K), g1 (p mod K), g2 (p mod K), g3 (p mod K)] ! (p div K))"
  proof (rule mat_cong)
    fix p assume p: "p < 4 * K"
    then have "0 < K" by (cases "K = 0") simp_all
    then have m: "p mod K < K" by simp
    have "p div K < 4" using p by (simp add: less_mult_imp_div_less)
    then consider "p div K = 0" | "p div K = 1" | "p div K = 2" | "p div K = 3" by linarith
    then show "elems (?ts ! (p div K)) ! (p mod K) =
        [g0 (p mod K), g1 (p mod K), g2 (p mod K), g3 (p mod K)] ! (p div K)"
      using m by cases (simp_all add: vec_def)
  qed
  finally show ?thesis .
qed

lemma transpose_mat: "transpose_t (mat R C g) = mat C R (\<lambda>q. g ((q mod R) * C + q div R))"
proof -
  have "map g [0..<R * C] ! ((q mod R) * C + q div R) = g ((q mod R) * C + q div R)"
    if "q < C * R" for q
  proof -
    have "0 < R" using that by (cases "R = 0") simp_all
    then have "q mod R < R" by simp
    moreover have "q div R < C" using that by (simp add: less_mult_imp_div_less)
    ultimately have "(q mod R) * C + q div R < R * C" by (rule flat2_less)
    then show ?thesis by simp
  qed
  then show ?thesis
    by (simp add: transpose_t_def mat_def mult.commute [of R C])
qed

lemma shifts_mat:
  "transpose_t (mat 4 K (\<lambda>p. [g0 (p mod K), g1 (p mod K), g2 (p mod K), g3 (p mod K)] ! (p div K))) =
     mat K 4 (\<lambda>q. [g0 (q div 4), g1 (q div 4), g2 (q div 4), g3 (q div 4)] ! (q mod 4))"
  unfolding transpose_mat
proof (rule mat_cong)
  fix q assume "q < K * 4"
  then have "q div 4 < K" by simp
  then have "((q mod 4) * K + q div 4) div K = q mod 4 \<and> ((q mod 4) * K + q div 4) mod K = q div 4"
    by simp
  then show "[g0 ((q mod 4 * K + q div 4) mod K), g1 ((q mod 4 * K + q div 4) mod K),
        g2 ((q mod 4 * K + q div 4) mod K), g3 ((q mod 4 * K + q div 4) mod K)] !
        ((q mod 4 * K + q div 4) div K) =
      [g0 (q div 4), g1 (q div 4), g2 (q div 4), g3 (q div 4)] ! (q mod 4)"
    by simp
qed

lemma reshape_ok:
  "prod_list s = prod_list (shape t) \<Longrightarrow> reshape t s = Inr \<lparr>shape = s, elems = elems t\<rparr>"
  by (simp add: reshape_def)

lemma broadcast_dims_anchors: "broadcast_dims [1, A, 4] [K, 1, 4] = Some [K, A, 4]"
  by (auto simp add: broadcast_dim_def)

lemma bcast_index_anchor:
  "bcast_index [1, A, 4] [q div (A * 4), q mod (A * 4) div 4, q mod (A * 4) mod 4] = q mod (A * 4)"
proof -
  have "A = 1 \<Longrightarrow> q mod (A * 4) div 4 = 0" by simp
  then have "(if A = 1 then 0 else q mod (A * 4) div 4) = q mod (A * 4) div 4" by auto
  then have "bcast_index [1, A, 4] [q div (A * 4), q mod (A * 4) div 4, q mod (A * 4) mod 4] =
      q mod (A * 4) div 4 * 4 + q mod (A * 4) mod 4"
    by (simp add: bcast_index_def)
  then show ?thesis by simp
qed

lemma bcast_index_shift:
  assumes "q < K * A * 4"
  shows "bcast_index [K, 1, 4] [q div (A * 4), q mod (A * 4) div 4, q mod (A * 4) mod 4] =
    q div (A * 4) * 4 + q mod 4"
proof -
  have "K = 1 \<Longrightarrow> q div (A * 4) = 0" using assms by simp
  then have "(if K = 1 then 0 else q div (A * 4)) = q div (A * 4)" by auto
  then have "bcast_index [K, 1, 4] [q div (A * 4), q mod (A * 4) div 4, q mod (A * 4) mod 4] =
      q div (A * 4) * 4 + q mod (A * 4) mod 4"
    by (simp add: bcast_index_def)
  then show ?thesis by (simp only: last_index)
qed

lemma unravel_KA4:
  "unravel [K, A, 4] q = [q div (A * 4), q mod (A * 4) div 4, q mod (A * 4) mod 4]"
  by simp

lemma binop_anchors:
  "binop f \<lparr>shape = [1, A, 4], elems = ea\<rparr> \<lparr>shape = [K, 1, 4], elems = map g [0..<K * 4]\<rparr> =
     Inr \<lparr>shape = [K, A, 4],
          elems = map (\<lambda>q. f (ea ! (q mod (A * 4))) (g (q div (A * 4) * 4 + q mod 4)))
                      [0..<K * A * 4]\<rparr>"
proof -
  have "f (ea ! bcast_index [1, A, 4] (unravel [K, A, 4] q))
          (map g [0..<K * 4] ! bcast_index [K, 1, 4] (unravel [K, A, 4] q)) =
        f (ea ! (q mod (A * 4))) (g (q div (A * 4) * 4 + q mod 4))"
    if "q < K * A * 4" for q
  proof -
    have "q < K * (A * 4)" using that by (simp add: mult.assoc)
    then have "q div (A * 4) < K" by (simp add: less_mult_imp_div_less)
    then have "q div (A * 4) * 4 + q mod 4 < K * 4" by (rule flat2_less) simp
    then show ?thesis
      unfolding unravel_KA4 bcast_index_anchor bcast_index_shift [OF that] by simp
  qed
  then have "map (\<lambda>q. f (ea ! bcast_index [1, A, 4] (unravel [K, A, 4] q))
          (map g [0..<K * 4] ! bcast_index [K, 1, 4] (unravel [K, A, 4] q))) [0..<K * A * 4] =
      map (\<lambda>q. f (ea ! (q mod (A * 4))) (g (q div (A * 4) * 4 + q mod 4))) [0..<K * A * 4]"
    by (intro map_cong [OF refl]) simp
  then show ?thesis
    unfolding One_nat_def
    by (simp add: binop_def pad_shape_def broadcast_dims_anchors [unfolded One_nat_def] Let_def
        mult.assoc del: broadcast_dims.simps unravel.simps)
qed

lemma shift_eq:
  assumes "image_shape = H # W # r1" and "features_shape = Hf # Wf # r2"
    and "shape anchors = [A, 4]" and "0 \<le> Hf" and "0 \<le> Wf"
  shows "shift image_shape features_shape stride anchors =
    Inr \<lparr>shape = [nat Hf * nat Wf * A, 4],
         elems = map (\<lambda>q. elems anchors ! (q mod (A * 4)) +
                          grid_shift (nat Wf) stride (offset W Wf stride) (offset H Hf stride)
                            (q div (A * 4)) (q mod 4))
                     [0..<nat Hf * nat Wf * A * 4]\<rparr>"
proof -
  let ?ox = "offset W Wf stride" and ?oy = "offset H Hf stride"
  let ?K = "nat Hf * nat Wf"
  let ?g = "\<lambda>q. grid_shift (nat Wf) stride ?ox ?oy (q div 4) (q mod 4)"
  have ix: "py_index image_shape 1 = Inr W" "py_index image_shape 0 = Inr H"
    "py_index features_shape 1 = Inr Wf" "py_index features_shape 0 = Inr Hf"
    using assms(1,2) by (simp_all add: py_index_def)
  have ax: "arange Wf = Inr (vec (nat Wf) real)" and ay: "arange Hf = Inr (vec (nat Hf) real)"
    using assms(4,5) by (simp_all add: arange_vec)
  have sx: "tmap (\<lambda>v. v * stride + ?ox) (vec (nat Wf) real) =
      vec (nat Wf) (\<lambda>j. real j * stride + ?ox)"
    and sy: "tmap (\<lambda>v. v * stride + ?oy) (vec (nat Hf) real) =
      vec (nat Hf) (\<lambda>j. real j * stride + ?oy)"
    by (rule tmap_vec)+
  have tr: "transpose_t (mat 4 ?K (\<lambda>p. [real (p mod ?K mod nat Wf) * stride + ?ox,
                   real (p mod ?K div nat Wf) * stride + ?oy,
                   real (p mod ?K mod nat Wf) * stride + ?ox,
                   real (p mod ?K div nat Wf) * stride + ?oy] ! (p div ?K))) = mat ?K 4 ?g"
    using shifts_mat [of ?K "\<lambda>p. real (p mod nat Wf) * stride + ?ox"
        "\<lambda>p. real (p div nat Wf) * stride + ?oy" "\<lambda>p. real (p mod nat Wf) * stride + ?ox"
        "\<lambda>p. real (p div nat Wf) * stride + ?oy"]
    by (simp add: grid_shift_def)
  have na: "py_index (shape anchors) 0 = Inr A" using assms(3) by (simp add: py_index_def)
  have k: "py_index (shape (mat ?K 4 ?g)) 0 = Inr ?K" by (simp add: py_index_def)
  have ra: "reshape anchors [1, A, 4] = Inr \<lparr>shape = [1, A, 4], elems = elems anchors\<rparr>"
    using assms(3) by (intro reshape_ok) simp
  have rs: "reshape (mat ?K 4 ?g) [?K, 1, 4] =
      Inr \<lparr>shape = [?K, 1, 4], elems = map ?g [0..<?K * 4]\<rparr>"
    by (simp add: reshape_def mat_def)
  let ?sum = "\<lparr>shape = [?K, A, 4],
          elems = map (\<lambda>q. elems anchors ! (q mod (A * 4)) + ?g (q div (A * 4) * 4 + q mod 4))
                      [0..<?K * A * 4]\<rparr>"
  have rr: "reshape ?sum [?K * A, 4] = Inr \<lparr>shape = [?K * A, 4], elems = elems ?sum\<rparr>"
    by (intro reshape_ok) (simp add: mult.assoc)
  have "shift image_shape features_shape stride anchors =
      Inr \<lparr>shape = [?K * A, 4], elems = elems ?sum\<rparr>"
    unfolding shift_def ix ebind_Inr Let_def ax ay sx sy meshgrid_vec prod.case flatten_mat
      stack_axis0_vec tr na k ra rs binop_anchors rr ..
  then show ?thesis by simp
qed

lemma divmod_flat4: "c < (4::nat) \<Longrightarrow> (r * 4 + c) mod 4 = c"
  by (simp del: mult_Suc_right add_mult_distrib add: mod_mult_self3)

lemma anchor_index:
  assumes "a < A" and "c < (4::nat)"
  shows "((k * A + a) * 4 + c) mod (A * 4) = a * 4 + c"
    and "((k * A + a) * 4 + c) div (A * 4) = k"
    and "((k * A + a) * 4 + c) mod 4 = c"
proof -
  have lt: "a * 4 + c < A * 4" using assms by (rule flat2_less)
  have q: "(k * A + a) * 4 + c = k * (A * 4) + (a * 4 + c)" by (simp add: algebra_simps)
  show "((k * A + a) * 4 + c) mod (A * 4) = a * 4 + c" unfolding q using lt by simp
  show "((k * A + a) * 4 + c) div (A * 4) = k" unfolding q using lt by simp
  show "((k * A + a) * 4 + c) mod 4 = c"
    using divmod_flat4 [OF assms(2), of "k * A + a"] by simp
qed

lemma shift_negative:
  assumes "image_shape = H # W # r1" and "features_shape = Hf # Wf # r2"
    and "Hf < 0 \<or> Wf < 0"
  shows "shift image_shape features_shape stride anchors = Inl InvalidArgumentError"
proof -
  have ix: "py_index image_shape 1 = Inr W" "py_index image_shape 0 = Inr H"
    "py_index features_shape 1 = Inr Wf" "py_index features_shape 0 = Inr Hf"
    using assms(1,2) by (simp_all add: py_index_def)
  show ?thesis
  proof (cases "Wf < 0")
    case True
    then have "arange Wf = Inl InvalidArgumentError" by (rule arange_negative)
    then show ?thesis unfolding shift_def ix ebind_Inr Let_def by simp
  next
    case False
    then have ax: "arange Wf = Inr (vec (nat Wf) real)" by (simp add: arange_vec)
    from False assms(3) have "arange Hf = Inl InvalidArgumentError"
      by (simp add: arange_negative)
    then show ?thesis unfolding shift_def ix ebind_Inr Let_def ax by simp
  qed
qed

lemma shift_elem:
  assumes "image_shape = H # W # r1" and "features_shape = Hf # Wf # r2"
    and "shape anchors = [A, 4]" and "0 \<le> Hf" and "0 \<le> Wf"
  shows "\<exists>out. shift image_shape features_shape stride anchors = Inr out \<and>
      shape out = [nat Hf * nat Wf * A, 4] \<and> wf out \<and>
      (nat Hf * nat Wf * A = 0 \<longrightarrow> elems out = []) \<and>
      (\<forall>k<nat Hf * nat Wf. \<forall>a<A. \<forall>c<4.
         elem out [k * A + a, c] = elem anchors [a, c] +
           grid_shift (nat Wf) stride (offset W Wf stride) (offset H Hf stride) k c)"
    (is "\<exists>out. ?R out")
proof -
  let ?K = "nat Hf * nat Wf"
  let ?f = "\<lambda>q. elems anchors ! (q mod (A * 4)) +
      grid_shift (nat Wf) stride (offset W Wf stride) (offset H Hf stride) (q div (A * 4)) (q mod 4)"
  let ?out = "\<lparr>shape = [?K * A, 4], elems = map ?f [0..<?K * A * 4]\<rparr>"
  have eq: "shift image_shape features_shape stride anchors = Inr ?out"
    using assms by (rule shift_eq)
  have sh: "shape ?out = [?K * A, 4]" by simp
  have w: "wf ?out" by (simp add: wf_def)
  have em: "?K * A = 0 \<longrightarrow> elems ?out = []" by auto
  have "elem ?out [k * A + a, c] = elem anchors [a, c] +
      grid_shift (nat Wf) stride (offset W Wf stride) (offset H Hf stride) k c"
    if "k < ?K" "a < A" "c < 4" for k a c
  proof -
    have "(k * A + a) * 4 + c < ?K * A * 4" using that by (rule flat3_less)
    then have "elem ?out [k * A + a, c] = ?f ((k * A + a) * 4 + c)"
      by (simp add: elem_def)
    also have "\<dots> = elems anchors ! (a * 4 + c) +
        grid_shift (nat Wf) stride (offset W Wf stride) (offset H Hf stride) k c"
      by (simp only: anchor_index [OF that(2,3)])
    also have "elems anchors ! (a * 4 + c) = elem anchors [a, c]"
      using assms(3) by (simp add: elem_def)
    finally show ?thesis .
  qed
  then have "\<forall>k<?K. \<forall>a<A. \<forall>c<4. elem ?out [k * A + a, c] = elem anchors [a, c] +
      grid_shift (nat Wf) stride (offset W Wf stride) (offset H Hf stride) k c"
    by blast
  with eq sh w em have "?R ?out" by (intro conjI)
  then show ?thesis by (rule exI [of _ ?out])
qed

section \<open>Claims about the shifter\<close>

text \<open>
  Claim C1. For an image shape \<open>(H, W, ...)\<close>, a feature shape \<open>(Hf, Wf)\<close> with
  \<open>Hf, Wf \<ge> 1\<close>, a stride \<open>> 0\<close> and \<open>A \<ge> 1\<close> anchor templates, \<^const>\<open>shift\<close>
  returns exactly \<open>K * A\<close> boxes, \<open>K = Hf * Wf\<close>, and the box at index \<open>k * A + a\<close> is
  template \<open>a\<close> plus \<open>(shift_x, shift_y, shift_x, shift_y)\<close>, with
  \<open>shift_x = (k mod Wf) * stride + (W - (Wf - 1) * stride) / 2\<close> and
  \<open>shift_y = (k div Wf) * stride + (H - (Hf - 1) * stride) / 2\<close>: the grid points are in
  row-major order with \<open>x\<close> varying fastest.
\<close>

theorem shift_grid:
  assumes "image_shape = H # W # r" and "features_shape = [int Hf, int Wf]"
    and "1 \<le> Hf" and "1 \<le> Wf" and "0 < stride"
    and "shape anchors = [A, 4]" and "1 \<le> A"
  shows "\<exists>out. shift image_shape features_shape stride anchors = Inr out \<and>
      shape out = [Hf * Wf * A, 4] \<and> wf out \<and>
      (\<forall>k<Hf * Wf. \<forall>a<A.
         elem out [k * A + a, 0] = elem anchors [a, 0] +
           (real (k mod Wf) * stride + (real_of_int W - (real Wf - 1) * stride) / 2) \<and>
         elem out [k * A + a, 1] = elem anchors [a, 1] +
           (real (k div Wf) * stride + (real_of_int H - (real Hf - 1) * stride) / 2) \<and>
         elem out [k * A + a, 2] = elem anchors [a, 2] +
           (real (k mod Wf) * stride + (real_of_int W - (real Wf - 1) * stride) / 2) \<and>
         elem out [k * A + a, 3] = elem anchors [a, 3] +
           (real (k div Wf) * stride + (real_of_int H - (real Hf - 1) * stride) / 2))"
    (is "\<exists>out. ?R out")
proof -
  have f: "features_shape = int Hf # int Wf # []" using assms(2) by simp
  have nn: "0 \<le> int Hf" "0 \<le> int Wf" by simp_all
  from shift_elem [OF assms(1) f assms(6) nn, of stride] obtain out where
    o: "shift image_shape features_shape stride anchors = Inr out"
      "shape out = [nat (int Hf) * nat (int Wf) * A, 4]" "wf out"
    and e: "\<forall>k<nat (int Hf) * nat (int Wf). \<forall>a<A. \<forall>c<4.
         elem out [k * A + a, c] = elem anchors [a, c] +
           grid_shift (nat (int Wf)) stride (offset W (int Wf) stride) (offset H (int Hf) stride) k c"
    by (elim exE conjE) (rule that)
  have ox: "offset W (int Wf) stride = (real_of_int W - (real Wf - 1) * stride) / 2"
    and oy: "offset H (int Hf) stride = (real_of_int H - (real Hf - 1) * stride) / 2"
    using assms(3,4) by (simp_all add: offset_def)
  have c4: "(0::nat) < 4" "(1::nat) < 4" "(2::nat) < 4" "(3::nat) < 4" by simp_all
  have "\<forall>k<Hf * Wf. \<forall>a<A.
         elem out [k * A + a, 0] = elem anchors [a, 0] +
           (real (k mod Wf) * stride + (real_of_int W - (real Wf - 1) * stride) / 2) \<and>
         elem out [k * A + a, 1] = elem anchors [a, 1] +
           (real (k div Wf) * stride + (real_of_int H - (real Hf - 1) * stride) / 2) \<and>
         elem out [k * A + a, 2] = elem anchors [a, 2] +
           (real (k mod Wf) * stride + (real_of_int W - (real Wf - 1) * stride) / 2) \<and>
         elem out [k * A + a, 3] = elem anchors [a, 3] +
           (real (k div Wf) * stride + (real_of_int H - (real Hf - 1) * stride) / 2)"
  proof (intro allI impI)
    fix k a assume ka: "k < Hf * Wf" "a < A"
    then have k: "k < nat (int Hf) * nat (int Wf)" by simp
    note g = e [rule_format, OF k ka(2)]
    show "elem out [k * A + a, 0] = elem anchors [a, 0] +
           (real (k mod Wf) * stride + (real_of_int W - (real Wf - 1) * stride) / 2) \<and>
         elem out [k * A + a, 1] = elem anchors [a, 1] +
           (real (k div Wf) * stride + (real_of_int H - (real Hf - 1) * stride) / 2) \<and>
         elem out [k * A + a, 2] = elem anchors [a, 2] +
           (real (k mod Wf) * stride + (real_of_int W - (real Wf - 1) * stride) / 2) \<and>
         elem out [k * A + a, 3] = elem anchors [a, 3] +
           (real (k div Wf) * stride + (real_of_int H - (real Hf - 1) * stride) / 2)"
      using g [OF c4(1)] g [OF c4(2)] g [OF c4(3)] g [OF c4(4)]
      by (simp add: grid_shift_def ox oy)
  qed
  with o have "?R out" by simp
  then show ?thesis by (rule exI [of _ out])
qed

theorem shift_grid_witness:
  "\<exists>out. shift [10, 20, 3] [2, 3] 4 \<lparr>shape = [2, 4], elems = [0, 1, 2, 3, 10, 11, 12, 13]\<rparr> =
      Inr out \<and> shape out = [12, 4] \<and>
    elem out [9, 0] = 20 \<and> elem out [9, 1] = 18 \<and> elem out [9, 2] = 22 \<and> elem out [9, 3] = 20"
proof -
  let ?a = "\<lparr>shape = [2, 4], elems = [0, 1, 2, 3, 10, 11, 12, 13]\<rparr>"
  have h: "[10, 20, 3] = (10::int) # 20 # [3]" "[2, 3] = [int 2, int 3]"
    "1 \<le> (2::nat)" "1 \<le> (3::nat)" "0 < (4::real)" "shape ?a = [2, 4]" "1 \<le> (2::nat)"
    by simp_all
  from shift_grid [OF h] obtain out where
    o: "shift [10, 20, 3] [2, 3] 4 ?a = Inr out" "shape out = [2 * 3 * 2, 4]"
    and e: "\<forall>k<2 * 3. \<forall>a<2.
         elem out [k * 2 + a, 0] = elem ?a [a, 0] +
           (real (k mod 3) * 4 + (real_of_int 20 - (real 3 - 1) * 4) / 2) \<and>
         elem out [k * 2 + a, 1] = elem ?a [a, 1] +
           (real (k div 3) * 4 + (real_of_int 10 - (real 2 - 1) * 4) / 2) \<and>
         elem out [k * 2 + a, 2] = elem ?a [a, 2] +
           (real (k mod 3) * 4 + (real_of_int 20 - (real 3 - 1) * 4) / 2) \<and>
         elem out [k * 2 + a, 3] = elem ?a [a, 3] +
           (real (k div 3) * 4 + (real_of_int 10 - (real 2 - 1) * 4) / 2)"
    by (elim exE conjE) (rule that)
  have i: "(4::nat) < 2 * 3" "(1::nat) < 2" by simp_all
  have "elem out [9, 0] = 20 \<and> elem out [9, 1] = 18 \<and> elem out [9, 2] = 22 \<and>
      elem out [9, 3] = 20"
    using e [rule_format, OF i] by (simp add: elem_def)
  with o show ?thesis by (intro exI [of _ out] conjI) simp_all
qed

text \<open>
  Claim C5, as the code has it. \<^const>\<open>shift\<close> checks none of its arguments itself. For
  every image shape and feature shape of at least two entries, every stride and every
  anchor tensor of shape \<open>(A, 4)\<close>: a negative \<open>Hf\<close> or \<open>Wf\<close> is refused, by
  \<^verbatim>\<open>tf.range\<close>, with an \<^verbatim>\<open>InvalidArgumentError\<close>; every other call, also one with
  \<open>Hf = 0\<close>, \<open>Wf = 0\<close>, \<open>A = 0\<close> or a non-positive stride, returns a tensor of shape
  \<open>(Hf * Wf * A, 4)\<close>, which is empty when \<open>Hf = 0\<close>, \<open>Wf = 0\<close> or \<open>A = 0\<close>.
\<close>

theorem shift_no_validation:
  assumes "image_shape = H # W # r1" and "features_shape = Hf # Wf # r2"
    and "shape anchors = [A, 4]"
  shows "if Hf < 0 \<or> Wf < 0
    then shift image_shape features_shape stride anchors = Inl InvalidArgumentError
    else \<exists>out. shift image_shape features_shape stride anchors = Inr out \<and>
      shape out = [nat Hf * nat Wf * A, 4] \<and>
      (Hf = 0 \<or> Wf = 0 \<or> A = 0 \<longrightarrow> elems out = [])"
proof (cases "Hf < 0 \<or> Wf < 0")
  case True
  with shift_negative [OF assms(1,2) True] show ?thesis by simp
next
  case False
  then have nn: "0 \<le> Hf" "0 \<le> Wf" by simp_all
  from shift_elem [OF assms nn, of stride] obtain out where
    o: "shift image_shape features_shape stride anchors = Inr out"
      "shape out = [nat Hf * nat Wf * A, 4]"
      "nat Hf * nat Wf * A = 0 \<longrightarrow> elems out = []"
    by (elim exE conjE) (rule that)
  have "Hf = 0 \<or> Wf = 0 \<or> A = 0 \<longrightarrow> elems out = []"
    using o(3) by auto
  with o(1,2) have "\<exists>out. shift image_shape features_shape stride anchors = Inr out \<and>
      shape out = [nat Hf * nat Wf * A, 4] \<and>
      (Hf = 0 \<or> Wf = 0 \<or> A = 0 \<longrightarrow> elems out = [])"
    by (intro exI [of _ out] conjI)
  with False show ?thesis by simp
qed

theorem shift_no_validation_witness:
  "(\<exists>out. shift [2, 2] [0, 2] 0 \<lparr>shape = [1, 4], elems = [0, 0, 0, 0]\<rparr> = Inr out \<and>
     shape out = [0, 4] \<and> elems out = []) \<and>
   shift [2, 2] [2, - 1] 1 \<lparr>shape = [1, 4], elems = [0, 0, 0, 0]\<rparr> =
     Inl InvalidArgumentError"
proof -
  let ?a = "\<lparr>shape = [1, 4], elems = [0, 0, 0, 0 :: real]\<rparr>"
  have h: "[2, 2] = (2::int) # 2 # []" "[0, 2] = (0::int) # 2 # []" "shape ?a = [1, 4]"
    and h': "[2, - 1] = (2::int) # (- 1) # []"
    by simp_all
  from shift_no_validation [OF h, of 0]
  have 1: "\<exists>out. shift [2, 2] [0, 2] 0 ?a = Inr out \<and> shape out = [0, 4] \<and> elems out = []"
    by simp
  from shift_no_validation [OF h(1) h' h(3), of 1]
  have 2: "shift [2, 2] [2, - 1] 1 ?a = Inl InvalidArgumentError" by simp
  from 1 2 show ?thesis by (rule conjI)
qed

text \<open>
  Claim C5 as stated fails: a feature height of 0, a feature width of 0, a stride of
  \<open>-1\<close>, a stride of 0 and an empty set of anchor templates are each accepted, and an
  array is returned.
\<close>

theorem shift_no_validation_counterexample:
  "shift [2, 2] [0, 2] 1 \<lparr>shape = [1, 4], elems = [0, 0, 0, 0]\<rparr> =
     Inr \<lparr>shape = [0, 4], elems = []\<rparr> \<and>
   shift [2, 2] [2, 0] 1 \<lparr>shape = [1, 4], elems = [0, 0, 0, 0]\<rparr> =
     Inr \<lparr>shape = [0, 4], elems = []\<rparr> \<and>
   shift [2, 2] [1, 1] (- 1) \<lparr>shape = [1, 4], elems = [0, 0, 0, 0]\<rparr> =
     Inr \<lparr>shape = [1, 4], elems = [1, 1, 1, 1]\<rparr> \<and>
   shift [2, 2] [1, 1] 0 \<lparr>shape = [1, 4], elems = [0, 0, 0, 0]\<rparr> =
     Inr \<lparr>shape = [1, 4], elems = [1, 1, 1, 1]\<rparr> \<and>
   shift [2, 2] [2, 2] 1 \<lparr>shape = [0, 4], elems = []\<rparr> =
     Inr \<lparr>shape = [0, 4], elems = []\<rparr>"
  by code_simp

text \<open>
  Claim C8, as the code has it. For \<open>Hf = Wf = 2\<close>, one anchor template \<open>(0, 0, 0, 0)\<close>,
  stride 1 and the image shape \<open>(2, 2)\<close>, the offset is \<open>(2 - (2 - 1) * 1) / 2 = 0.5\<close> on
  both axes and \<^const>\<open>shift\<close> returns the four boxes \<open>(0.5, 0.5, 0.5, 0.5)\<close>,
  \<open>(1.5, 0.5, 1.5, 0.5)\<close>, \<open>(0.5, 1.5, 0.5, 1.5)\<close>, \<open>(1.5, 1.5, 1.5, 1.5)\<close>, in this
  row-major order.
\<close>

theorem shift_example:
  "offset 2 2 1 = 1 / 2 \<and>
   shift [2, 2] [2, 2] 1 \<lparr>shape = [1, 4], elems = [0, 0, 0, 0]\<rparr> =
     Inr \<lparr>shape = [4, 4],
          elems = [1 / 2, 1 / 2, 1 / 2, 1 / 2, 3 / 2, 1 / 2, 3 / 2, 1 / 2,
                   1 / 2, 3 / 2, 1 / 2, 3 / 2, 3 / 2, 3 / 2, 3 / 2, 3 / 2]\<rparr>"
  by code_simp

text \<open>
  Claim C8 as stated fails: the offset is not 0, and the result is not the list
  \<open>(0, 0, 0, 0)\<close>, \<open>(1, 0, 1, 0)\<close>, \<open>(0, 1, 0, 1)\<close>, \<open>(1, 1, 1, 1)\<close>.
\<close>

theorem shift_example_counterexample:
  "offset 2 2 1 \<noteq> 0 \<and>
   shift [2, 2] [2, 2] 1 \<lparr>shape = [1, 4], elems = [0, 0, 0, 0]\<rparr> \<noteq>
     Inr \<lparr>shape = [4, 4],
          elems = [0, 0, 0, 0, 1, 0, 1, 0, 0, 1, 0, 1, 1, 1, 1, 1]\<rparr>"
  by code_simp

section \<open>The version check\<close>



end
